theory Spec2Isabelle
  imports Main "HOL-Library.Word" "HOL-Library.Mapping"
begin

section \<open>The operator node \<open>DatasetOp\<close> (dataset/engine/datasetops/dataset_op.h)\<close>

text \<open>
  A \<open>DatasetOp\<close> object is reached through pointers (\<open>std::shared_ptr<DatasetOp>\<close> in
  \<open>child_\<close>, raw \<open>DatasetOp *\<close> in \<open>parent_\<close>), and the same object is seen from its
  parents and from its children.  The embedding therefore uses an explicit store: an
  address stands for one object, and the store gives the fields of the object at every
  address.  \<open>int32_t\<close> is \<open>32 word\<close> (read as a signed value by \<open>sint\<close>).
\<close>

type_synonym addr = nat

text \<open>\<open>enum OpState { kDeOpRunning = 0, kDeOpIdle = 1, kDeOpTerminated }\<close>\<close>

datatype OpState = kDeOpRunning | kDeOpIdle | kDeOpTerminated

text \<open>
  Modelled from the spec: \<open>DbConnector\<close> (dataset/engine/db_connector.h, included by the
  header and outside the sources verified here).  Only what the header asks of a
  connector is kept: the values its \<open>size()\<close>, \<open>capacity()\<close> and \<open>out_buffers_count()\<close>
  return.
\<close>

record DbConnector =
  connector_size :: "32 word"
  connector_capacity :: "32 word"
  out_buffers_count :: "64 word"

text \<open>
  The data members of the class, in the order of the header.  \<open>tree_\<close> and \<open>sampler_\<close> are
  pointers that may be null, \<open>out_connector_\<close> is a \<open>std::unique_ptr\<close> that may be null.
  The mutex is left out: it carries no data.  A member \<open>x_\<close> of the class is the field
  \<open>x_'\<close> of the record, since an Isabelle name cannot end in an underscore.
\<close>

record DatasetOp =
  child_' :: "addr list"
  parent_' :: "addr list"
  sampler_' :: "addr option"
  oc_queue_size_' :: "32 word"
  operator_id_' :: "32 word"
  tree_' :: "addr option"
  state_' :: OpState
  op_ctrl_flags_' :: "32 word"
  out_connector_' :: "DbConnector option"
  column_name_id_map_' :: "(string, 32 word) mapping"

type_synonym store = "addr \<Rightarrow> DatasetOp"

text \<open>\<open>static constexpr int32_t kInvalidOperatorId = -1;\<close>\<close>

definition kInvalidOperatorId :: "32 word" where
  "kInvalidOperatorId = - 1"

text \<open>
  Modelled from the spec: \<open>Status\<close> and the macro \<open>RETURN_IF_NOT_OK\<close>
  (dataset/util/status.h, included by the header and outside the sources verified here).
  The header only uses \<open>Status::OK()\<close> and \<open>RETURN_IF_NOT_OK(s)\<close>, which returns \<open>s\<close> from
  the calling function when \<open>s\<close> is not OK; the failure kinds are those the spec names in
  its sections 4.1 and 7.
\<close>

datatype Status =
  OK | AlreadyChild | NotFound | UnsupportedOperation | InvalidState
  | Cancelled | ProtocolViolation

text \<open>
  Undefined behaviour of the C++ (a null \<open>out_connector_\<close> dereferenced, \<open>child_[i]\<close> read
  out of range) is a value of its own, so that no result is invented for it.
\<close>

datatype fault = NullPointer | OutOfRange

subsection \<open>Getters written in the header\<close>

text \<open>\<open>int32_t id() const { return operator_id_; }\<close>\<close>

definition id_of :: "DatasetOp \<Rightarrow> 32 word" where
  "id_of this = operator_id_' this"

text \<open>\<open>bool inlined() const { return (oc_queue_size_ == 0); }\<close>\<close>

definition inlined :: "DatasetOp \<Rightarrow> bool" where
  "inlined this = (oc_queue_size_' this = 0)"

text \<open>\<open>bool HasColumnNameMap() const { return (column_name_id_map_.empty()); }\<close>\<close>

definition HasColumnNameMap :: "DatasetOp \<Rightarrow> bool" where
  "HasColumnNameMap this = Mapping.is_empty (column_name_id_map_' this)"

text \<open>\<open>std::vector<std::shared_ptr<DatasetOp>> Children() const { return child_; }\<close>\<close>

definition Children :: "DatasetOp \<Rightarrow> addr list" where
  "Children this = child_' this"

text \<open>\<open>void set_id(int32_t op_id) { operator_id_ = op_id; }\<close> (private)\<close>

definition set_id :: "32 word \<Rightarrow> DatasetOp \<Rightarrow> DatasetOp" where
  "set_id op_id this = this\<lparr>operator_id_' := op_id\<rparr>"

text \<open>\<open>void set_tree(ExecutionTree *tree) { tree_ = tree; }\<close> (private)\<close>

definition set_tree :: "addr option \<Rightarrow> DatasetOp \<Rightarrow> DatasetOp" where
  "set_tree tree this = this\<lparr>tree_' := tree\<rparr>"

text \<open>
  \<open>ConnectorOutBufferCount\<close>: \<open>-1\<close> when there is no connector, else the connector's count.
\<close>

definition ConnectorOutBufferCount :: "DatasetOp \<Rightarrow> 64 word" where
  "ConnectorOutBufferCount this =
     (case out_connector_' this of None \<Rightarrow> - 1 | Some q \<Rightarrow> out_buffers_count q)"

subsection \<open>Connector size and capacity\<close>

text \<open>
  \<^verbatim>\<open>
  int32_t ConnectorSize() const {
    if (!inlined()) { return out_connector_->size(); }
    return ChildOpConnectorSize();
  }
  int32_t ChildOpConnectorSize(int32_t child_index = 0) const {
    return child_[child_index]->ConnectorSize();
  }
  \<close>
  The two functions call each other down the tree.  The store may hold a cycle, on which
  the C++ never returns, so the recursion is bounded by fuel: \<open>None\<close> is "no answer
  within this many calls".
\<close>

fun ConnectorSize :: "nat \<Rightarrow> store \<Rightarrow> addr \<Rightarrow> (fault + 32 word) option"
and ChildOpConnectorSize :: "nat \<Rightarrow> store \<Rightarrow> addr \<Rightarrow> 32 word \<Rightarrow> (fault + 32 word) option"
where
  "ConnectorSize 0 S this = None"
| "ConnectorSize (Suc k) S this =
     (if \<not> inlined (S this) then
        (case out_connector_' (S this) of
           None \<Rightarrow> Some (Inl NullPointer)
         | Some q \<Rightarrow> Some (Inr (connector_size q)))
      else ChildOpConnectorSize k S this 0)"
| "ChildOpConnectorSize k S this child_index =
     (if 0 \<le> sint child_index \<and> nat (sint child_index) < length (child_' (S this))
      then ConnectorSize k S (child_' (S this) ! nat (sint child_index))
      else Some (Inl OutOfRange))"

fun ConnectorCapacity :: "nat \<Rightarrow> store \<Rightarrow> addr \<Rightarrow> (fault + 32 word) option"
and ChildOpConnectorCapacity :: "nat \<Rightarrow> store \<Rightarrow> addr \<Rightarrow> 32 word \<Rightarrow> (fault + 32 word) option"
where
  "ConnectorCapacity 0 S this = None"
| "ConnectorCapacity (Suc k) S this =
     (if \<not> inlined (S this) then
        (case out_connector_' (S this) of
           None \<Rightarrow> Some (Inl NullPointer)
         | Some q \<Rightarrow> Some (Inr (connector_capacity q)))
      else ChildOpConnectorCapacity k S this 0)"
| "ChildOpConnectorCapacity k S this child_index =
     (if 0 \<le> sint child_index \<and> nat (sint child_index) < length (child_' (S this))
      then ConnectorCapacity k S (child_' (S this) ! nat (sint child_index))
      else Some (Inl OutOfRange))"

subsection \<open>Reset of a subtree\<close>

text \<open>
  \<^verbatim>\<open>
  virtual Status ResetSubtree() {
    RETURN_IF_NOT_OK(Reset());
    for (const auto &c : child_) {
      RETURN_IF_NOT_OK(c->ResetSubtree());
    }
    return Status::OK();
  }
  \<close>
  \<open>Reset\<close> is virtual and its body is the operator's own, so it is a parameter: given the
  node it runs on and the state \<open>'w\<close> of whatever it resets, it returns a status and the
  new state.  The loop over \<open>child_\<close> is \<open>ResetSubtree_children\<close>; every child runs
  this base version of \<open>ResetSubtree\<close>.  As above, fuel bounds the depth of the calls, and
  \<open>None\<close> is "no answer within this depth".
\<close>

fun ResetSubtree ::
  "(addr \<Rightarrow> 'w \<Rightarrow> Status \<times> 'w) \<Rightarrow> nat \<Rightarrow> store \<Rightarrow> addr \<Rightarrow> 'w \<Rightarrow> (Status \<times> 'w) option"
and ResetSubtree_children ::
  "(addr \<Rightarrow> 'w \<Rightarrow> Status \<times> 'w) \<Rightarrow> nat \<Rightarrow> store \<Rightarrow> addr list \<Rightarrow> 'w \<Rightarrow> (Status \<times> 'w) option"
where
  "ResetSubtree Reset 0 S this w = None"
| "ResetSubtree Reset (Suc k) S this w =
     (case Reset this w of
        (rc, w') \<Rightarrow>
          if rc \<noteq> OK then Some (rc, w')
          else ResetSubtree_children Reset k S (child_' (S this)) w')"
| "ResetSubtree_children Reset k S [] w = Some (OK, w)"
| "ResetSubtree_children Reset k S (c # cs) w =
     (case ResetSubtree Reset k S c w of
        None \<Rightarrow> None
      | Some (rc, w') \<Rightarrow>
          if rc \<noteq> OK then Some (rc, w')
          else ResetSubtree_children Reset k S cs w')"

text \<open>
  What the claim about \<open>ResetSubtree\<close> compares it with: the nodes of the subtree in
  pre-order (a node, then the subtrees of its children in the order of \<open>child_\<close>), and
  \<open>Reset\<close> run over a list of nodes from the left, stopping at the first failure.
\<close>

fun preorder :: "nat \<Rightarrow> store \<Rightarrow> addr \<Rightarrow> addr list option"
and preorder_children :: "nat \<Rightarrow> store \<Rightarrow> addr list \<Rightarrow> addr list option"
where
  "preorder 0 S n = None"
| "preorder (Suc k) S n = map_option (Cons n) (preorder_children k S (child_' (S n)))"
| "preorder_children k S [] = Some []"
| "preorder_children k S (c # cs) =
     (case preorder k S c of
        None \<Rightarrow> None
      | Some xs \<Rightarrow> map_option (append xs) (preorder_children k S cs))"

fun reset_until_failure :: "(addr \<Rightarrow> 'w \<Rightarrow> Status \<times> 'w) \<Rightarrow> addr list \<Rightarrow> 'w \<Rightarrow> Status \<times> 'w" where
  "reset_until_failure Reset [] w = (OK, w)"
| "reset_until_failure Reset (a # as) w =
     (case Reset a w of
        (rc, w') \<Rightarrow> if rc \<noteq> OK then (rc, w') else reset_until_failure Reset as w')"

subsection \<open>Chains of inlined nodes\<close>

text \<open>
  \<open>inline_chain S n cs d\<close>: from \<open>n\<close>, the nodes \<open>cs\<close> are reached in turn, each as the
  first child (\<open>child_[0]\<close>) of an inlined node, and the last one reached, \<open>d\<close>, is not
  inlined.  So \<open>d\<close> is the nearest descendant of \<open>n\<close> with a connector of its own; for
  nodes with a unique child it is the only candidate.
\<close>

fun inline_chain :: "store \<Rightarrow> addr \<Rightarrow> addr list \<Rightarrow> addr \<Rightarrow> bool" where
  "inline_chain S n [] d \<longleftrightarrow> n = d \<and> \<not> inlined (S d)"
| "inline_chain S n (c # cs) d \<longleftrightarrow>
     inlined (S n) \<and> (case child_' (S n) of [] \<Rightarrow> False | c' # rest \<Rightarrow> c' = c)
     \<and> inline_chain S c cs d"

section \<open>Tree mutation\<close>

text \<open>
  \<open>AddChild\<close>, \<open>RemoveChild\<close>, \<open>Remove\<close>, \<open>InsertAsParent\<close>, \<open>AddParent\<close> and
  \<open>RemoveParent\<close> are declared in the header and defined in dataset_op.cc, which is
  outside the sources verified here.  The definitions of this section follow the words
  of the spec (section 4.1) on the data members of the header: \<open>child_\<close> is a sequence,
  and the spec's "parent set" is the set of the elements of the vector \<open>parent_\<close>.  Each
  operation returns its status and the store it leaves.
\<close>





text \<open>
  Modelled from the spec: the rewiring that \<open>Remove\<close> ("reconnects its former parent(s)")
  and \<open>InsertAsParent\<close> ("rewired to point at \<open>newNode\<close> instead") share, bodies in
  dataset_op.cc.  In a children sequence, every occurrence of \<open>old\<close> gives its place to
  the nodes \<open>new\<close> (one node, or none); \<open>rewire_parents\<close> does so in the children of each
  of the given parents in turn.
\<close>

definition replace_child :: "addr \<Rightarrow> addr list \<Rightarrow> addr list \<Rightarrow> addr list" where
  "replace_child old new cs = concat (map (\<lambda>c. if c = old then new else [c]) cs)"

definition rewire_parent :: "addr \<Rightarrow> addr list \<Rightarrow> addr \<Rightarrow> store \<Rightarrow> store" where
  "rewire_parent old new p S = S(p := (S p)\<lparr>child_' := replace_child old new (child_' (S p))\<rparr>)"

definition rewire_parents :: "addr \<Rightarrow> addr list \<Rightarrow> addr list \<Rightarrow> store \<Rightarrow> store" where
  "rewire_parents old new parents S = fold (rewire_parent old new) parents S"

text \<open>
  Modelled from the spec: \<open>Remove\<close> (body in dataset_op.cc).  "Detaches this node from the
  tree and reconnects its former parent(s) directly to its former child (single-child
  nodes only - multi-child removal is undefined/rejected with \<open>UnsupportedOperation\<close>).
  After this call the node holds no parent/child references."  A node with more than one
  child is rejected; a node without a child is detached from its parents, which get
  nothing in its place.
\<close>

definition Remove :: "store \<Rightarrow> addr \<Rightarrow> Status \<times> store" where
  "Remove S this =
     (let children = child_' (S this); parents = parent_' (S this) in
      if 1 < length children then (UnsupportedOperation, S)
      else
        let S1 = rewire_parents this children parents S;
            S2 = fold (\<lambda>g s. s(g := (s g)\<lparr>parent_' :=
                                  removeAll this (parent_' (s g)) @ parents\<rparr>))
                   children S1;
            S3 = S2(this := (S2 this)\<lparr>child_' := [], parent_' := []\<rparr>)
        in (OK, S3))"

text \<open>
  Modelled from the spec: \<open>InsertAsParent\<close> (body in dataset_op.cc).  "\<open>newNode\<close> becomes
  the sole parent of this node; every former parent of this node is rewired to point at
  \<open>newNode\<close> instead, and \<open>newNode\<close> gains this node as its only child."  The spec names no
  failure of this operation.
\<close>

definition InsertAsParent :: "store \<Rightarrow> addr \<Rightarrow> addr \<Rightarrow> Status \<times> store" where
  "InsertAsParent S this to_add =
     (let parents = parent_' (S this);
          S1 = rewire_parents this [to_add] parents S;
          S2 = S1(to_add := (S1 to_add)\<lparr>parent_' := parent_' (S1 to_add) @ parents,
                                         child_' := child_' (S1 to_add) @ [this]\<rparr>);
          S3 = S2(this := (S2 this)\<lparr>parent_' := [to_add]\<rparr>)
      in (OK, S3))"

subsection \<open>Sequences of mutations and the consistency of the links\<close>

text \<open>
  The invariant of the spec's data model: \<open>c\<close> lists \<open>p\<close> among its parents exactly when
  \<open>p\<close> lists \<open>c\<close> among its children, for every pair of nodes.
\<close>

definition consistent :: "store \<Rightarrow> bool" where
  "consistent S \<longleftrightarrow> (\<forall>p c. p \<in> set (parent_' (S c)) \<longleftrightarrow> c \<in> set (child_' (S p)))"






section \<open>Example data\<close>

text \<open>
  Modelled from the spec: the constructor \<open>DatasetOp(op_connector_size, sampler)\<close>, declared
  in the header, body in dataset_op.cc.  The spec's lifecycle: a node is constructed
  standalone, with no tree, no id (the sentinel) and no connector.  The spec does not
  give the first worker state and flags; they are taken as idle and none.
\<close>

definition DatasetOp_new :: "32 word \<Rightarrow> addr option \<Rightarrow> DatasetOp" where
  "DatasetOp_new op_connector_size sampler =
     \<lparr>child_' = [], parent_' = [], sampler_' = sampler,
      oc_queue_size_' = op_connector_size, operator_id_' = kInvalidOperatorId,
      tree_' = None, state_' = kDeOpIdle, op_ctrl_flags_' = 0,
      out_connector_' = None, column_name_id_map_' = Mapping.empty\<rparr>"

text \<open>A store of standalone nodes, each with an output queue of 16.\<close>

definition fresh_store :: store where
  "fresh_store = (\<lambda>a. DatasetOp_new 16 None)"

text \<open>
  Two inlined nodes above a buffered one: \<open>1 -> 2 -> 3\<close>, where 3 owns a connector that
  holds 5 buffers out of 16.
\<close>

definition chain_store :: store where
  "chain_store = fresh_store
     (1 := (DatasetOp_new 0 None)\<lparr>child_' := [2]\<rparr>,
      2 := (DatasetOp_new 0 None)\<lparr>child_' := [3], parent_' := [1]\<rparr>,
      3 := (DatasetOp_new 16 None)\<lparr>parent_' := [2],
             out_connector_' := Some \<lparr>connector_size = 5, connector_capacity = 16,
                                      out_buffers_count = 40\<rparr>\<rparr>)"

text \<open>
  A tree \<open>10 -> [20, 30, 40]\<close>, \<open>20 -> [50]\<close>, with the parent links to match.
\<close>

definition example_tree :: store where
  "example_tree = fresh_store
     (10 := (DatasetOp_new 16 None)\<lparr>child_' := [20, 30, 40]\<rparr>,
      20 := (DatasetOp_new 16 None)\<lparr>child_' := [50], parent_' := [10]\<rparr>,
      30 := (DatasetOp_new 16 None)\<lparr>parent_' := [10]\<rparr>,
      40 := (DatasetOp_new 16 None)\<lparr>parent_' := [10]\<rparr>,
      50 := (DatasetOp_new 16 None)\<lparr>parent_' := [20]\<rparr>)"

text \<open>A \<open>Reset\<close> that records the node it runs on and fails on node 30.\<close>

definition logging_Reset :: "addr \<Rightarrow> addr list \<Rightarrow> Status \<times> addr list" where
  "logging_Reset a log = (if a = 30 then Cancelled else OK, log @ [a])"


section \<open>Properties\<close>

text \<open>
  C6.  A node reports itself inlined exactly when its configured output-connector queue
  size \<open>oc_queue_size_\<close> (the header: "Capacity for each out_connector_") is zero.
\<close>

theorem inlined_iff_capacity_zero:
  "inlined (S a) \<longleftrightarrow> oc_queue_size_' (S a) = 0"
  by (simp add: inlined_def)

text \<open>
  C9.  \<open>HasColumnNameMap\<close> is true exactly when the column-name map holds no entry: no name
  has an index in it.  It answers "the map is empty", the opposite of "has the map set up".
\<close>

theorem HasColumnNameMap_iff_no_entries:
  "HasColumnNameMap this \<longleftrightarrow> (\<forall>name. Mapping.lookup (column_name_id_map_' this) name = None)"
  by (auto simp: HasColumnNameMap_def Mapping.is_empty_def keys_is_none_rep Option.is_none_def
      dest: equals0D)

subsection \<open>Inlined nodes\<close>

lemma ConnectorSize_chain:
  "inline_chain S n cs d \<Longrightarrow> length cs < k \<Longrightarrow>
   ConnectorSize k S n =
     (case out_connector_' (S d) of
        None \<Rightarrow> Some (Inl NullPointer)
      | Some q \<Rightarrow> Some (Inr (connector_size q)))"
proof (induction cs arbitrary: n k)
  case Nil
  then obtain k' where "k = Suc k'" by (cases k) auto
  with Nil show ?case by simp
next
  case (Cons c cs)
  then obtain k' where k: "k = Suc k'" by (cases k) auto
  from Cons.prems obtain rest where ch: "child_' (S n) = c # rest" and inl: "inlined (S n)"
    and rest: "inline_chain S c cs d"
    by (auto split: list.splits)
  from Cons.prems k have "length cs < k'" by simp
  from Cons.IH [OF rest this] k ch inl show ?case by simp
qed

lemma ConnectorCapacity_chain:
  "inline_chain S n cs d \<Longrightarrow> length cs < k \<Longrightarrow>
   ConnectorCapacity k S n =
     (case out_connector_' (S d) of
        None \<Rightarrow> Some (Inl NullPointer)
      | Some q \<Rightarrow> Some (Inr (connector_capacity q)))"
proof (induction cs arbitrary: n k)
  case Nil
  then obtain k' where "k = Suc k'" by (cases k) auto
  with Nil show ?case by simp
next
  case (Cons c cs)
  then obtain k' where k: "k = Suc k'" by (cases k) auto
  from Cons.prems obtain rest where ch: "child_' (S n) = c # rest" and inl: "inlined (S n)"
    and rest: "inline_chain S c cs d"
    by (auto split: list.splits)
  from Cons.prems k have "length cs < k'" by simp
  from Cons.IH [OF rest this] k ch inl show ?case by simp
qed

text \<open>
  C5.  For a chain of inlined nodes from \<open>n\<close> down to its nearest non-inlined descendant
  \<open>d\<close> (each inlined node passing the query to its first child, which is its unique child
  when it has one child), \<open>ConnectorSize\<close> and \<open>ConnectorCapacity\<close> of \<open>n\<close> return, once the
  fuel covers the chain, the size and the capacity of the connector of \<open>d\<close>.
\<close>

theorem inlined_node_reports_descendant_connector:
  assumes "inline_chain S n cs d"
    and "out_connector_' (S d) = Some q"
    and "length cs < k"
  shows "ConnectorSize k S n = Some (Inr (connector_size q))
       \<and> ConnectorCapacity k S n = Some (Inr (connector_capacity q))"
  using ConnectorSize_chain [OF assms(1,3)] ConnectorCapacity_chain [OF assms(1,3)] assms(2)
  by simp

theorem inlined_node_reports_descendant_connector_witness:
  "inline_chain chain_store 1 [2, 3] 3
   \<and> out_connector_' (chain_store 3)
       = Some \<lparr>connector_size = 5, connector_capacity = 16, out_buffers_count = 40\<rparr>
   \<and> length [2, 3 :: addr] < 3
   \<and> ConnectorSize 3 chain_store 1 = Some (Inr 5)
   \<and> ConnectorCapacity 3 chain_store 1 = Some (Inr 16)"
proof -
  have chain: "inline_chain chain_store 1 [2, 3] 3"
    by (simp add: chain_store_def fresh_store_def DatasetOp_new_def inlined_def)
  have conn: "out_connector_' (chain_store 3)
       = Some \<lparr>connector_size = 5, connector_capacity = 16, out_buffers_count = 40\<rparr>"
    by (simp add: chain_store_def)
  have fuel: "length [2, 3 :: addr] < 3" by simp
  from inlined_node_reports_descendant_connector [OF chain conn fuel] chain conn fuel
  show ?thesis by simp
qed

subsection \<open>Reset of a subtree\<close>

lemma reset_until_failure_append:
  "reset_until_failure Reset (xs @ ys) w =
     (case reset_until_failure Reset xs w of
        (rc, w') \<Rightarrow> if rc \<noteq> OK then (rc, w') else reset_until_failure Reset ys w')"
  by (induction xs arbitrary: w) (auto split: prod.splits)

lemma ResetSubtree_children_preorder:
  assumes node: "\<And>c xs w. preorder k S c = Some xs \<Longrightarrow>
                   ResetSubtree Reset k S c w = Some (reset_until_failure Reset xs w)"
  shows "preorder_children k S cs = Some as \<Longrightarrow>
         ResetSubtree_children Reset k S cs w = Some (reset_until_failure Reset as w)"
proof (induction cs arbitrary: as w)
  case Nil
  then show ?case by simp
next
  case (Cons c cs)
  from Cons.prems obtain xs ys where xs: "preorder k S c = Some xs"
    and ys: "preorder_children k S cs = Some ys" and as: "as = xs @ ys"
    by (auto split: option.splits)
  show ?case
    using node [OF xs] Cons.IH [OF ys] as
    by (simp add: reset_until_failure_append split: prod.splits)
qed

text \<open>
  C10.  \<open>ResetSubtree\<close> runs \<open>Reset\<close> over the nodes of the subtree in pre-order (the node
  itself first, then the subtree of each child in the order of \<open>child_\<close>) and stops at the
  first failure, which it returns together with the state reached there: the nodes after
  the failing one have not been reset, and the nodes before it stay reset.
\<close>

theorem ResetSubtree_is_preorder_until_failure:
  "preorder k S n = Some as \<Longrightarrow>
   ResetSubtree Reset k S n w = Some (reset_until_failure Reset as w)"
proof (induction k arbitrary: n as w)
  case 0
  then show ?case by simp
next
  case (Suc k)
  from Suc.prems obtain ys where ys: "preorder_children k S (child_' (S n)) = Some ys"
    and as: "as = n # ys"
    by auto
  have "ResetSubtree_children Reset k S (child_' (S n)) w' = Some (reset_until_failure Reset ys w')"
    for w'
    using Suc.IH ys by (rule ResetSubtree_children_preorder)
  with as show ?case by (simp split: prod.splits)
qed

text \<open>
  On the example tree the \<open>Reset\<close> of node 30 fails: nodes 10, 20, 50 and 30 have run
  their \<open>Reset\<close>, node 40 has not.
\<close>

theorem ResetSubtree_is_preorder_until_failure_witness:
  "preorder 3 example_tree 10 = Some [10, 20, 50, 30, 40]
   \<and> ResetSubtree logging_Reset 3 example_tree 10 [] = Some (Cancelled, [10, 20, 50, 30])"
proof -
  have pre: "preorder 3 example_tree 10 = Some [10, 20, 50, 30, 40]"
    by (simp add: numeral_3_eq_3 example_tree_def fresh_store_def DatasetOp_new_def)
  from ResetSubtree_is_preorder_until_failure [OF pre, of logging_Reset "[]"] pre
  show ?thesis by (simp add: logging_Reset_def)
qed

section \<open>Properties of the tree mutations\<close>

subsection \<open>Rewiring\<close>

lemma set_replace_child:
  "set (replace_child old new cs) = (set cs - {old}) \<union> (if old \<in> set cs then set new else {})"
  by (induction cs) (auto simp: replace_child_def)

lemma replace_child_absent: "old \<notin> set cs \<Longrightarrow> replace_child old new cs = cs"
  by (induction cs) (auto simp: replace_child_def)

lemma replace_child_idem:
  "old \<notin> set new \<Longrightarrow> replace_child old new (replace_child old new cs) = replace_child old new cs"
  by (rule replace_child_absent) (simp add: set_replace_child)

text \<open>
  A parent may stand more than once in \<open>parent_\<close>; its children are then rewired more than
  once, to the same effect.
\<close>

lemma rewire_parents_apply:
  assumes "old \<notin> set new"
  shows "rewire_parents old new ps S x =
     (if x \<in> set ps then (S x)\<lparr>child_' := replace_child old new (child_' (S x))\<rparr> else S x)"
  unfolding rewire_parents_def
proof (induction ps arbitrary: S)
  case Nil
  then show ?case by simp
next
  case (Cons p ps)
  have "fold (rewire_parent old new) (p # ps) S x
        = fold (rewire_parent old new) ps (rewire_parent old new p S) x"
    by simp
  also have "\<dots> = (if x \<in> set ps
      then (rewire_parent old new p S x)
             \<lparr>child_' := replace_child old new (child_' (rewire_parent old new p S x))\<rparr>
      else rewire_parent old new p S x)"
    by (rule Cons.IH)
  also have "\<dots> = (if x \<in> set (p # ps)
      then (S x)\<lparr>child_' := replace_child old new (child_' (S x))\<rparr> else S x)"
    by (simp add: rewire_parent_def replace_child_idem [OF assms])
  finally show ?case .
qed

subsection \<open>The links after each operation\<close>

lemma Remove_fails:
  "1 < length (child_' (S this)) \<Longrightarrow> Remove S this = (UnsupportedOperation, S)"
  by (simp add: Remove_def)

lemma Remove_status:
  "fst (Remove S this) = (if 1 < length (child_' (S this)) then UnsupportedOperation else OK)"
  by (simp add: Remove_def Let_def)

lemma Remove_child:
  assumes "\<not> 1 < length (child_' (S this))" and "this \<notin> set (child_' (S this))"
  shows "child_' (snd (Remove S this) x) =
     (if x = this then []
      else if x \<in> set (parent_' (S this))
        then replace_child this (child_' (S this)) (child_' (S x))
      else child_' (S x))"
proof (cases "child_' (S this)")
  case Nil
  then show ?thesis
    by (simp add: Remove_def Let_def rewire_parents_apply)
next
  case (Cons g gs)
  with assms have "gs = []" and "g \<noteq> this" by auto
  with Cons show ?thesis
    by (simp add: Remove_def Let_def rewire_parents_apply)
qed

lemma Remove_parent:
  assumes "\<not> 1 < length (child_' (S this))" and "this \<notin> set (child_' (S this))"
  shows "parent_' (snd (Remove S this) x) =
     (if x = this then []
      else if x \<in> set (child_' (S this))
        then removeAll this (parent_' (S x)) @ parent_' (S this)
      else parent_' (S x))"
proof (cases "child_' (S this)")
  case Nil
  then show ?thesis
    by (simp add: Remove_def Let_def rewire_parents_apply)
next
  case (Cons g gs)
  with assms have "gs = []" and "g \<noteq> this" by auto
  with Cons show ?thesis
    by (simp add: Remove_def Let_def rewire_parents_apply)
qed

lemma InsertAsParent_child:
  assumes "to_add \<noteq> this"
  shows "child_' (snd (InsertAsParent S this to_add) x) =
     (let cs = (if x \<in> set (parent_' (S this))
                then replace_child this [to_add] (child_' (S x)) else child_' (S x))
      in if x = to_add then cs @ [this] else cs)"
  using assms by (simp add: InsertAsParent_def Let_def rewire_parents_apply)

lemma InsertAsParent_parent:
  assumes "to_add \<noteq> this"
  shows "parent_' (snd (InsertAsParent S this to_add) x) =
     (if x = this then [to_add]
      else if x = to_add then parent_' (S to_add) @ parent_' (S this)
      else parent_' (S x))"
  using assms by (simp add: InsertAsParent_def Let_def rewire_parents_apply)

subsection \<open>Consistency is kept\<close>







lemma consistent_example_tree: "consistent example_tree"
  unfolding consistent_def
  by (auto simp: example_tree_def fresh_store_def DatasetOp_new_def split: if_splits)

lemma example_tree_links:
  "child_' (example_tree 10) = [20, 30, 40]"
  "parent_' (example_tree 20) = [10]"
  "child_' (example_tree 20) = [50]"
  "parent_' (example_tree 50) = [20]"
  "child_' (example_tree 70) = []"
  "parent_' (example_tree 70) = []"
  by (simp_all add: example_tree_def fresh_store_def DatasetOp_new_def)



text \<open>
  C2.  In a consistent store, let \<open>C\<close> have exactly one parent \<open>P\<close> (another node) and
  exactly one child \<open>G\<close>.  Then \<open>Remove\<close> on \<open>C\<close> succeeds; afterwards the children of \<open>P\<close>
  are its former children with \<open>G\<close> in the place of \<open>C\<close> (so \<open>G\<close> is among them and \<open>C\<close> is
  not), \<open>P\<close> is among the parents of \<open>G\<close>, and \<open>C\<close> has no parent and no child.  On a node
  \<open>D\<close> with more than one child, \<open>Remove\<close> fails with \<open>UnsupportedOperation\<close> and leaves
  the store as it was.
\<close>

theorem Remove_reconnects_parent_to_child:
  "(consistent S \<and> parent_' (S C) = [P] \<and> child_' (S C) = [G] \<and> P \<noteq> C \<longrightarrow>
      fst (Remove S C) = OK
      \<and> child_' (snd (Remove S C) P) = replace_child C [G] (child_' (S P))
      \<and> G \<in> set (child_' (snd (Remove S C) P))
      \<and> C \<notin> set (child_' (snd (Remove S C) P))
      \<and> P \<in> set (parent_' (snd (Remove S C) G))
      \<and> parent_' (snd (Remove S C) C) = []
      \<and> child_' (snd (Remove S C) C) = [])
   \<and> (1 < length (child_' (S D)) \<longrightarrow> Remove S D = (UnsupportedOperation, S))"
proof (intro conjI impI)
  assume "1 < length (child_' (S D))"
  then show "Remove S D = (UnsupportedOperation, S)" by (rule Remove_fails)
next
  assume a: "consistent S \<and> parent_' (S C) = [P] \<and> child_' (S C) = [G] \<and> P \<noteq> C"
  then have links: "\<And>p c. p \<in> set (parent_' (S c)) \<longleftrightarrow> c \<in> set (child_' (S p))"
    by (simp add: consistent_def)
  from a have one: "\<not> 1 < length (child_' (S C))" by simp
  from links [of C C] a have GC: "G \<noteq> C" by auto
  with a have self: "C \<notin> set (child_' (S C))" by simp
  from links [of P C] a have CP: "C \<in> set (child_' (S P))" by simp
  note ch = Remove_child [of S C, OF one self] and pa = Remove_parent [of S C, OF one self]
  show "fst (Remove S C) = OK" using one by (simp add: Remove_status)
  show "child_' (snd (Remove S C) P) = replace_child C [G] (child_' (S P))"
    using a by (simp add: ch)
  show "G \<in> set (child_' (snd (Remove S C) P))"
    using a CP by (simp add: ch set_replace_child)
  show "C \<notin> set (child_' (snd (Remove S C) P))"
    using a GC by (simp add: ch set_replace_child)
  show "P \<in> set (parent_' (snd (Remove S C) G))"
    using a GC by (simp add: pa)
  show "parent_' (snd (Remove S C) C) = []" by (simp add: pa)
  show "child_' (snd (Remove S C) C) = []" by (simp add: ch)
qed

text \<open>
  On the example tree, removing node 20 turns \<open>10 -> 20 -> 50\<close> into \<open>10 -> 50\<close>, and
  removing node 10, which has three children, is refused.
\<close>

theorem Remove_reconnects_parent_to_child_witness:
  "consistent example_tree \<and> parent_' (example_tree 20) = [10]
   \<and> child_' (example_tree 20) = [50] \<and> (10 :: addr) \<noteq> 20
   \<and> fst (Remove example_tree 20) = OK
   \<and> child_' (snd (Remove example_tree 20) 10) = [50, 30, 40]
   \<and> 10 \<in> set (parent_' (snd (Remove example_tree 20) 50))
   \<and> parent_' (snd (Remove example_tree 20) 20) = []
   \<and> child_' (snd (Remove example_tree 20) 20) = []
   \<and> 1 < length (child_' (example_tree 10))
   \<and> Remove example_tree 10 = (UnsupportedOperation, example_tree)"
  using Remove_reconnects_parent_to_child [of example_tree 20 10 50 10]
    consistent_example_tree
  by (simp add: example_tree_links replace_child_def)

text \<open>
  C3.  In a consistent store, let \<open>N\<close> be a fresh node (no child, no parent, not \<open>C\<close>
  itself).  After a successful \<open>InsertAsParent\<close> of \<open>N\<close> on \<open>C\<close>, the only parent of \<open>C\<close>
  is \<open>N\<close>, the only child of \<open>N\<close> is \<open>C\<close>, the parents of \<open>N\<close> are those \<open>C\<close> had before
  the call, and each of them has \<open>N\<close> in the place of \<open>C\<close> among its children (so it lists
  \<open>N\<close> and no longer lists \<open>C\<close>).
\<close>

theorem InsertAsParent_splices_new_parent:
  assumes "consistent S" and "N \<noteq> C" and "child_' (S N) = []" and "parent_' (S N) = []"
    and "InsertAsParent S C N = (OK, S')"
  shows "parent_' (S' C) = [N] \<and> child_' (S' N) = [C] \<and> parent_' (S' N) = parent_' (S C)
       \<and> (\<forall>p \<in> set (parent_' (S C)).
             child_' (S' p) = replace_child C [N] (child_' (S p))
             \<and> N \<in> set (child_' (S' p)) \<and> C \<notin> set (child_' (S' p)))"
proof -
  from assms(5) have S': "S' = snd (InsertAsParent S C N)" by simp
  from assms(1,3) have notp: "N \<notin> set (parent_' (S C))" by (simp add: consistent_def)
  note ch = InsertAsParent_child [of N C S, OF assms(2)]
    and pa = InsertAsParent_parent [of N C S, OF assms(2)]
  have "parent_' (S' C) = [N]" by (simp add: S' pa)
  moreover have "child_' (S' N) = [C]" using notp assms(3) by (simp add: S' ch)
  moreover have "parent_' (S' N) = parent_' (S C)" using assms(2,4) by (simp add: S' pa)
  moreover have "child_' (S' p) = replace_child C [N] (child_' (S p))
             \<and> N \<in> set (child_' (S' p)) \<and> C \<notin> set (child_' (S' p))"
    if "p \<in> set (parent_' (S C))" for p
  proof -
    from that notp have "p \<noteq> N" by auto
    moreover from that assms(1) have "C \<in> set (child_' (S p))" by (simp add: consistent_def)
    ultimately show ?thesis using that assms(2) by (simp add: S' ch set_replace_child)
  qed
  ultimately show ?thesis by blast
qed

text \<open>
  On the example tree, inserting the fresh node 70 above node 20 turns \<open>10 -> 20\<close> into
  \<open>10 -> 70 -> 20\<close>.
\<close>

theorem InsertAsParent_splices_new_parent_witness:
  "consistent example_tree \<and> (70 :: addr) \<noteq> 20 \<and> child_' (example_tree 70) = []
   \<and> parent_' (example_tree 70) = []
   \<and> fst (InsertAsParent example_tree 20 70) = OK
   \<and> parent_' (snd (InsertAsParent example_tree 20 70) 20) = [70]
   \<and> child_' (snd (InsertAsParent example_tree 20 70) 70) = [20]
   \<and> parent_' (snd (InsertAsParent example_tree 20 70) 70) = [10]
   \<and> child_' (snd (InsertAsParent example_tree 20 70) 10) = [70, 30, 40]"
proof -
  have ne: "(70 :: addr) \<noteq> 20" by simp
  have st: "fst (InsertAsParent example_tree 20 70) = OK"
    by (simp add: InsertAsParent_def Let_def)
  then have ok: "InsertAsParent example_tree 20 70 = (OK, snd (InsertAsParent example_tree 20 70))"
    by (simp add: prod_eq_iff)
  from InsertAsParent_splices_new_parent
         [OF consistent_example_tree ne example_tree_links(5,6) ok]
    consistent_example_tree st
  show ?thesis by (simp add: example_tree_links replace_child_def)
qed

end
